theory Spec2Isabelle
  imports Complex_Main "HOL-Library.Word"
begin

section \<open>Python strings\<close>

text \<open>
  A Python \<^verbatim>\<open>str\<close> is a sequence of Unicode code points. It is modelled as a list of
  natural numbers, one per code point, so that the report's Japanese text and the Unicode
  white space that \<^verbatim>\<open>str.strip\<close> removes are both expressible. \<open>ustr\<close> turns an
  ASCII literal into such a list.
\<close>

type_synonym ustring = "nat list"

type_synonym byte = "8 word"

definition ustr :: "string \<Rightarrow> ustring" where
  "ustr s = map of_char s"

text \<open>
  The code points for which \<^verbatim>\<open>str.isspace\<close> holds; \<^verbatim>\<open>str.strip()\<close> and the regular
  expression class \<^verbatim>\<open>\s\<close> both use this set.
\<close>

definition is_space :: "nat \<Rightarrow> bool" where
  "is_space c =
     ((9 \<le> c \<and> c \<le> 13) \<or> (28 \<le> c \<and> c \<le> 32) \<or> c = 0x85 \<or> c = 0xA0 \<or> c = 0x1680 \<or>
      (0x2000 \<le> c \<and> c \<le> 0x200A) \<or> c = 0x2028 \<or> c = 0x2029 \<or> c = 0x202F \<or>
      c = 0x205F \<or> c = 0x3000)"

text \<open>\<^verbatim>\<open>s.strip(chars)\<close>: drop the characters in the set from both ends.\<close>

definition strip_chars :: "(nat \<Rightarrow> bool) \<Rightarrow> ustring \<Rightarrow> ustring" where
  "strip_chars P s = rev (dropWhile P (rev (dropWhile P s)))"

text \<open>\<^verbatim>\<open>s.strip()\<close>\<close>

definition strip :: "ustring \<Rightarrow> ustring" where
  "strip s = strip_chars is_space s"

text \<open>\<^verbatim>\<open>s.split(sep)\<close> for a one-character separator; the result is never empty.\<close>

fun split_acc :: "nat \<Rightarrow> ustring \<Rightarrow> ustring \<Rightarrow> ustring list" where
  "split_acc sep acc [] = [rev acc]"
| "split_acc sep acc (c # cs) =
     (if c = sep then rev acc # split_acc sep [] cs else split_acc sep (c # acc) cs)"

definition split :: "nat \<Rightarrow> ustring \<Rightarrow> ustring list" where
  "split sep s = split_acc sep [] s"

text \<open>\<^verbatim>\<open>s.startswith(p)\<close>\<close>

definition startswith :: "ustring \<Rightarrow> ustring \<Rightarrow> bool" where
  "startswith s p = (take (length p) s = p)"

text \<open>
  The first occurrence of \<open>pat\<close> in a string: the text before it and the text after it.
\<close>

fun split_first :: "ustring \<Rightarrow> ustring \<Rightarrow> (ustring \<times> ustring) option" where
  "split_first pat [] = (if pat = [] then Some ([], []) else None)"
| "split_first pat (c # cs) =
     (if startswith (c # cs) pat then Some ([], drop (length pat) (c # cs))
      else (case split_first pat cs of
              Some (before, after) \<Rightarrow> Some (c # before, after)
            | None \<Rightarrow> None))"

text \<open>
  Left-to-right replacement of non-overlapping matches, as \<^verbatim>\<open>re.sub\<close> and
  \<^verbatim>\<open>str.replace\<close> do it for patterns that never match the empty string. The matcher
  \<open>m\<close> is tried at every position; it answers with the number of characters the match
  consumes and the replacement text. The counter is the number of characters of the last
  match that are still to be skipped.
\<close>

fun sub_from :: "(ustring \<Rightarrow> (nat \<times> ustring) option) \<Rightarrow> nat \<Rightarrow> ustring \<Rightarrow> ustring" where
  "sub_from m k [] = []"
| "sub_from m k (c # cs) =
     (if k > 0 then sub_from m (k - 1) cs
      else (case m (c # cs) of
              Some (n, repl) \<Rightarrow> repl @ sub_from m (n - 1) cs
            | None \<Rightarrow> c # sub_from m 0 cs))"

text \<open>\<^verbatim>\<open>s.replace(old, new)\<close> for a non-empty \<open>old\<close>.\<close>

definition replace :: "ustring \<Rightarrow> ustring \<Rightarrow> ustring \<Rightarrow> ustring" where
  "replace old new s =
     sub_from (\<lambda>t. if startswith t old then Some (length old, new) else None) 0 s"

section \<open>Inline markup\<close>

text \<open>
  A match of \<^verbatim>\<open><br\s*/?>\<close> (ignoring case) at the head of the string: its length.
\<close>

definition br_match :: "ustring \<Rightarrow> (nat \<times> ustring) option" where
  "br_match s =
     (case s of
        lt # b # r # rest \<Rightarrow>
          if lt = 60 \<and> (b = 98 \<or> b = 66) \<and> (r = 114 \<or> r = 82) then
            (let ws = takeWhile is_space rest;
                 r1 = dropWhile is_space rest;
                 slash = (case r1 of c # _ \<Rightarrow> c = 47 | [] \<Rightarrow> False);
                 r2 = (if slash then tl r1 else r1)
             in (case r2 of
                   c # _ \<Rightarrow>
                     if c = 62 then Some (3 + length ws + (if slash then 1 else 0) + 1, ustr ''<br/>'')
                     else None
                 | [] \<Rightarrow> None))
          else None
      | _ \<Rightarrow> None)"

text \<open>
  A match of \<^verbatim>\<open>\*\*(.*?)\*\*\<close> at the head of the string: the group is the text up to
  the next \<^verbatim>\<open>**\<close>, and the dot does not match a line feed.
\<close>

definition bold_match :: "ustring \<Rightarrow> (nat \<times> ustring) option" where
  "bold_match s =
     (if startswith s (ustr ''**'') then
        (case split_first (ustr ''**'') (drop 2 s) of
           Some (g, _) \<Rightarrow>
             if 10 \<in> set g then None
             else Some (length g + 4, ustr ''<b>'' @ g @ ustr ''</b>'')
         | None \<Rightarrow> None)
      else None)"

definition format_inline_bold :: "ustring \<Rightarrow> ustring" where
  "format_inline_bold text =
     (if text = [] then []
      else sub_from bold_match 0 (sub_from br_match 0 text))"

section \<open>Layout units\<close>

text \<open>
  The paragraph styles that \<^verbatim>\<open>save_to_pdf\<close> and \<^verbatim>\<open>create_paragraph_table\<close> define, by
  their names in the source.
\<close>

datatype style =
  MainTitle | WikiH1 | WikiH2 | WikiH3 | WikiBody | WikiBullet | Caption | TableCellC | TableCellL

text \<open>
  The flowables the story is made of. A spacer carries its height in millimetres. The two
  drawings are the rule under the title and the rule under a top-level heading. A table
  carries its cells and the number of its column widths; the widths themselves are equal
  floating-point shares of the page and are not part of the model. An image carries its
  path and the width and height it is drawn with.
\<close>

datatype flowable =
    Paragraph ustring style
  | Spacer nat
  | TitleRule
  | H1Rule
  | PDFImage ustring real real
  | Table "flowable list list" nat
  | PageBreak
  | KeepTogether "flowable list"

datatype error =
    MarkupError ustring
  | OpenError
  | LLMError

record image_info =
  path :: ustring
  caption :: ustring
  label :: ustring

text \<open>A page of the source document: its text and the references of its embedded images.\<close>

record page =
  get_text :: ustring
  get_images :: "nat list"

record base_image =
  image :: "byte list"
  ext :: ustring

text \<open>An opened document; \<open>extract_image\<close> answers \<open>None\<close> where the library raises.\<close>

record document =
  pages :: "page list"
  extract_image :: "nat \<Rightarrow> base_image option"

text \<open>
  What the program calls outside itself. Each field is the outcome of a library or service
  call, with \<open>None\<close> or \<open>False\<close> where that call raises:
  \<^item> \<open>markup_ok\<close>: the layout library accepts this text as paragraph markup when a
    \<^verbatim>\<open>Paragraph\<close> is constructed;
  \<^item> \<open>image_size\<close>: the pixel width and height of the image file at a path;
  \<^item> \<open>fround\<close>: the rounding of the exact result of a floating-point operation to
    the float that the platform returns;
  \<^item> \<open>build\<close>: \<^verbatim>\<open>doc.build(story)\<close> writes the output file;
  \<^item> \<open>open_pdf\<close>: \<^verbatim>\<open>fitz.open\<close>;
  \<^item> \<open>write_file\<close>: writing an image's bytes to the scratch directory;
  \<^item> \<open>caption_llm\<close>: the captioning call for the image with this number and these
    bytes, giving the reply's text;
  \<^item> \<open>summary_llm\<close>: the report generated from the document text and the image list.
\<close>

record env =
  markup_ok :: "ustring \<Rightarrow> bool"
  image_size :: "ustring \<Rightarrow> (nat \<times> nat) option"
  fround :: "real \<Rightarrow> real"
  build :: "flowable list \<Rightarrow> bool"
  open_pdf :: "ustring \<Rightarrow> document option"
  write_file :: "ustring \<Rightarrow> byte list \<Rightarrow> bool"
  caption_llm :: "nat \<Rightarrow> byte list \<Rightarrow> ustring option"
  summary_llm :: "ustring \<Rightarrow> ustring \<Rightarrow> ustring option"

text \<open>\<^verbatim>\<open>Paragraph(text, style)\<close>: the constructor parses the markup and raises on bad markup.\<close>

definition mk_paragraph :: "env \<Rightarrow> ustring \<Rightarrow> style \<Rightarrow> error + flowable" where
  "mk_paragraph e text st =
     (if markup_ok e text then Inr (Paragraph text st) else Inl (MarkupError text))"

text \<open>A comprehension whose body may raise: the first error ends it.\<close>

fun map_err :: "('a \<Rightarrow> error + 'b) \<Rightarrow> 'a list \<Rightarrow> error + 'b list" where
  "map_err f [] = Inr []"
| "map_err f (x # xs) =
     (case f x of
        Inl err \<Rightarrow> Inl err
      | Inr y \<Rightarrow> (case map_err f xs of Inl err \<Rightarrow> Inl err | Inr ys \<Rightarrow> Inr (y # ys)))"

section \<open>Tables\<close>

definition parse_row :: "ustring \<Rightarrow> ustring list" where
  "parse_row line = map strip (split 124 (strip_chars (\<lambda>c. c = 124) line))"

definition parse_markdown_table :: "ustring list \<Rightarrow> ustring list list" where
  "parse_markdown_table markdown_lines =
     filter (\<lambda>row. length row > 0) (map parse_row markdown_lines)"

text \<open>
  The filter of \<^verbatim>\<open>create_paragraph_table\<close>: a row is dropped when it is not empty and
  the characters of its cells, joined, are all among \<^verbatim>\<open>-\<close>, \<^verbatim>\<open>:\<close> and the space.
\<close>

definition separator_row :: "ustring list \<Rightarrow> bool" where
  "separator_row row = (length row > 0 \<and> set (concat row) \<subseteq> {45, 58, 32})"

definition clean_data :: "ustring list \<Rightarrow> ustring list list" where
  "clean_data raw_data_lines =
     filter (\<lambda>row. \<not> separator_row row) (parse_markdown_table raw_data_lines)"

definition max_cols :: "ustring list list \<Rightarrow> nat" where
  "max_cols rows = Max (set (map length rows))"

definition normalized_data :: "ustring list list \<Rightarrow> ustring list list" where
  "normalized_data rows =
     map (\<lambda>row. row @ replicate (max_cols rows - length row) []) rows"

text \<open>The cells of row \<open>i\<close> as paragraphs: the first row is centred, the others are not.\<close>

definition convert_row :: "env \<Rightarrow> nat \<times> ustring list \<Rightarrow> error + flowable list" where
  "convert_row e ir =
     map_err (\<lambda>cell_text.
        mk_paragraph e (format_inline_bold cell_text)
          (if fst ir = 0 then TableCellC else TableCellL)) (snd ir)"

text \<open>
  \<^verbatim>\<open>create_paragraph_table\<close>: \<open>None\<close> where the source returns \<^verbatim>\<open>None\<close>, an error where a
  cell's paragraph cannot be constructed.
\<close>

definition create_paragraph_table :: "env \<Rightarrow> ustring list \<Rightarrow> error + flowable option" where
  "create_paragraph_table e raw_data_lines =
     (if raw_data_lines = [] then Inr None
      else if clean_data raw_data_lines = [] then Inr None
      else
        (case map_err (convert_row e)
                (enumerate 0 (normalized_data (clean_data raw_data_lines))) of
           Inl err \<Rightarrow> Inl err
         | Inr table_data \<Rightarrow>
             (let t = Table table_data (max_cols (clean_data raw_data_lines))
              in Inr (Some (if length (clean_data raw_data_lines) < 30
                            then KeepTogether [t] else t)))))"

section \<open>Layout\<close>

text \<open>
  \<^verbatim>\<open>re.match(r'\[\[IMG:\s*(.*?)\]\]', line)\<close>: the match is anchored at the start of the
  line only. The white space after the colon is consumed greedily, the group is the text
  up to the next \<^verbatim>\<open>]]\<close>, and the dot does not match a line feed. The result is the
  group.
\<close>

definition img_match :: "ustring \<Rightarrow> ustring option" where
  "img_match line =
     (if startswith line (ustr ''[[IMG:'') then
        (case split_first (ustr '']]'') (dropWhile is_space (drop 6 line)) of
           Some (g, _) \<Rightarrow> if 10 \<in> set g then None else Some g
         | None \<Rightarrow> None)
      else None)"

text \<open>The key looked up in the image dictionary: \<^verbatim>\<open>group(1).strip().replace(" ", "")\<close>.\<close>

definition label_key :: "ustring \<Rightarrow> ustring" where
  "label_key g = replace [32] [] (strip g)"

text \<open>
  The largest integer that converts to a float: \<^verbatim>\<open>float(n)\<close> raises from
  \<open>2 ^ 1024 - 2 ^ 970\<close> on.
\<close>

definition float_ok :: "nat \<Rightarrow> bool" where
  "float_ok n = (n < 2 ^ 1024 - 2 ^ 970)"

text \<open>
  The two bounds of the image size. \<^verbatim>\<open>available_width\<close> is
  \<^verbatim>\<open>A4[0] - (2 * margin)\<close> with \<^verbatim>\<open>margin = 2*cm\<close>, and the maximum height is
  \<^verbatim>\<open>10*cm\<close>. The layout library defines \<^verbatim>\<open>inch = 72.0\<close>, \<^verbatim>\<open>cm = inch / 2.54\<close>,
  \<^verbatim>\<open>mm = cm * 0.1\<close> and \<^verbatim>\<open>A4 = (210*mm, 297*mm)\<close>; in double precision the two
  expressions evaluate to the floats 481.8897637795276 and 283.46456692913387, which are
  the fractions below.
\<close>

definition available_width :: real where
  "available_width = 1059686797163641 / 2 ^ 41"

definition max_h :: real where
  "max_h = 2493380699208567 / 2 ^ 43"

text \<open>
  Lines 343 to 355: the size an image of \<open>img_w\<close> by \<open>img_h\<close> pixels is drawn with,
  \<open>None\<close> where the computation raises. Every floating-point operation is the exact
  operation followed by the rounding \<open>rnd\<close>; comparisons are exact. The conversion
  \<^verbatim>\<open>float(img_w)\<close> raises for an integer too large, and the two divisions raise for a
  zero divisor. The width is bounded first, then the height is tested again.
\<close>

definition display_size :: "(real \<Rightarrow> real) \<Rightarrow> nat \<Rightarrow> nat \<Rightarrow> (real \<times> real) option" where
  "display_size rnd img_w img_h =
     (if \<not> float_ok img_w \<or> \<not> float_ok img_h then None
      else if img_w = 0 \<or> rnd (real img_w) = 0 then None
      else
        (let aspect = rnd (rnd (real img_h) / rnd (real img_w));
             w1 = (if real img_w > available_width then available_width else real img_w);
             h1 = (if real img_w > available_width then rnd (available_width * aspect)
                   else real img_h)
         in if h1 > max_h then
              (if aspect = 0 then None else Some (rnd (max_h / aspect), max_h))
            else Some (w1, h1)))"

text \<open>
  The body of the \<^verbatim>\<open>try\<close> of the image branch: \<open>None\<close> where it raises, which the source
  catches. Loading the image may raise, the size computation may raise, and the caption
  paragraph may raise.
\<close>

definition image_group :: "env \<Rightarrow> image_info \<Rightarrow> flowable option" where
  "image_group e info =
     (case image_size e (path info) of
        None \<Rightarrow> None
      | Some (img_w, img_h) \<Rightarrow>
          (case display_size (fround e) img_w img_h of
             None \<Rightarrow> None
           | Some (draw_w, draw_h) \<Rightarrow>
               if markup_ok e ([0x25B2, 32] @ caption info) then
                 Some (KeepTogether
                         [Spacer 2, PDFImage (path info) draw_w draw_h, Spacer 1,
                          Paragraph ([0x25B2, 32] @ caption info) Caption, Spacer 5])
               else None))"

record lstate =
  story :: "flowable list"
  table_buffer :: "ustring list"
  in_table :: bool

text \<open>The \<^verbatim>\<open>else\<close> branch of the table test: a buffered table is finished and put out.\<close>

definition end_table :: "env \<Rightarrow> lstate \<Rightarrow> error + lstate" where
  "end_table e st =
     (if in_table st then
        (case create_paragraph_table e (table_buffer st) of
           Inl err \<Rightarrow> Inl err
         | Inr t \<Rightarrow>
             Inr (st\<lparr>story := story st @
                              (case t of None \<Rightarrow> [] | Some f \<Rightarrow> [Spacer 2, f, Spacer 5]),
                     table_buffer := [], in_table := False\<rparr>))
      else Inr st)"

definition image_block :: "env \<Rightarrow> (ustring \<times> image_info) list \<Rightarrow> ustring \<Rightarrow> lstate \<Rightarrow> lstate" where
  "image_block e image_data_dict g st =
     (case map_of image_data_dict (label_key g) of
        None \<Rightarrow> st
      | Some info \<Rightarrow>
          (case image_group e info of
             None \<Rightarrow> st
           | Some f \<Rightarrow> st\<lparr>story := story st @ [f]\<rparr>))"

definition append_paragraph :: "env \<Rightarrow> lstate \<Rightarrow> ustring \<Rightarrow> style \<Rightarrow> error + lstate" where
  "append_paragraph e st text sty =
     (case mk_paragraph e text sty of
        Inl err \<Rightarrow> Inl err
      | Inr p \<Rightarrow> Inr (st\<lparr>story := story st @ [p]\<rparr>))"

text \<open>The heading, bullet and paragraph branches, in the order of the source.\<close>

definition text_block :: "env \<Rightarrow> lstate \<Rightarrow> ustring \<Rightarrow> error + lstate" where
  "text_block e st line =
     (if startswith line (ustr ''# '') then
        (let story1 = (if length (story st) > 5 then story st @ [PageBreak] else story st)
         in (case mk_paragraph e (strip (replace (ustr ''# '') [] line)) WikiH1 of
               Inl err \<Rightarrow> Inl err
             | Inr p \<Rightarrow>
                 Inr (st\<lparr>story := story1 @ [KeepTogether [Spacer 5, p, H1Rule, Spacer 3]]\<rparr>)))
      else if startswith line (ustr ''## '') then
        append_paragraph e st (strip (replace (ustr ''## '') [] line)) WikiH2
      else if startswith line (ustr ''### '') then
        append_paragraph e st (strip (replace (ustr ''### '') [] line)) WikiH3
      else if startswith line (ustr ''#### '') then
        append_paragraph e st
          (ustr ''<b>'' @ strip (replace (ustr ''#### '') [] line) @ ustr ''</b>'') WikiBody
      else if startswith line (ustr ''- '') \<or> startswith line (ustr ''* '') then
        append_paragraph e st ([0x2022, 32] @ format_inline_bold (drop 2 line)) WikiBullet
      else append_paragraph e st (format_inline_bold line) WikiBody)"

text \<open>One iteration of the loop over the lines of the report.\<close>

definition layout_line ::
  "env \<Rightarrow> (ustring \<times> image_info) list \<Rightarrow> lstate \<Rightarrow> ustring \<Rightarrow> error + lstate" where
  "layout_line e image_data_dict st raw_line =
     (let line = strip raw_line in
      if startswith line (ustr ''|'') then
        Inr (st\<lparr>table_buffer := table_buffer st @ [line], in_table := True\<rparr>)
      else
        (case end_table e st of
           Inl err \<Rightarrow> Inl err
         | Inr st1 \<Rightarrow>
             if line = [] then Inr st1
             else
               (case img_match line of
                  Some g \<Rightarrow> Inr (image_block e image_data_dict g st1)
                | None \<Rightarrow> text_block e st1 line)))"

fun layout_lines ::
  "env \<Rightarrow> (ustring \<times> image_info) list \<Rightarrow> lstate \<Rightarrow> ustring list \<Rightarrow> error + lstate" where
  "layout_lines e image_data_dict st [] = Inr st"
| "layout_lines e image_data_dict st (l # ls) =
     (case layout_line e image_data_dict st l of
        Inl err \<Rightarrow> Inl err
      | Inr st1 \<Rightarrow> layout_lines e image_data_dict st1 ls)"

text \<open>The table still buffered when the lines end; it is put out without spacers.\<close>

definition final_table :: "env \<Rightarrow> lstate \<Rightarrow> error + flowable list" where
  "final_table e st =
     (if in_table st \<and> table_buffer st \<noteq> [] then
        (case create_paragraph_table e (table_buffer st) of
           Inl err \<Rightarrow> Inl err
         | Inr t \<Rightarrow> Inr (story st @ (case t of None \<Rightarrow> [] | Some f \<Rightarrow> [f])))
      else Inr (story st))"

text \<open>
  \<^verbatim>\<open>Path(name).stem\<close> for a bare file name: the name up to its last dot, unless that
  dot is the first or the last character.
\<close>

definition path_stem :: "ustring \<Rightarrow> ustring" where
  "path_stem name =
     (if 46 \<in> set name then
        (let i = length name - length (takeWhile (\<lambda>c. c \<noteq> 46) (rev name)) - 1
         in if 0 < i \<and> i < length name - 1 then take i name else name)
      else name)"

text \<open>The title: the stem followed by a fixed Japanese text.\<close>

definition title_text :: "ustring \<Rightarrow> ustring" where
  "title_text stem =
     stem @ [32, 0x8981, 0x7D04, 0x30FB, 0x89E3, 0x8AAC, 32, 0x30EC, 0x30DD, 0x30FC, 0x30C8]"

text \<open>
  The story \<^verbatim>\<open>save_to_pdf\<close> hands to \<^verbatim>\<open>doc.build\<close>; \<open>original_filename\<close> is a bare
  file name, as \<^verbatim>\<open>main\<close> passes it.
\<close>

definition build_story ::
  "env \<Rightarrow> ustring \<Rightarrow> (ustring \<times> image_info) list \<Rightarrow> ustring \<Rightarrow> error + flowable list" where
  "build_story e markdown_text image_data_dict original_filename =
     (case mk_paragraph e (title_text (path_stem original_filename)) MainTitle of
        Inl err \<Rightarrow> Inl err
      | Inr title \<Rightarrow>
          (case layout_lines e image_data_dict
                  \<lparr>story = [title, TitleRule, Spacer 10], table_buffer = [], in_table = False\<rparr>
                  (split 10 markdown_text) of
             Inl err \<Rightarrow> Inl err
           | Inr st \<Rightarrow> final_table e st))"

text \<open>
  \<^verbatim>\<open>save_to_pdf\<close>: \<open>Inr True\<close> when the build succeeds, \<open>Inr False\<close> when the build
  raises (the source catches that and returns \<^verbatim>\<open>False\<close>), an error when an exception
  leaves the function before the build.
\<close>

definition save_to_pdf ::
  "env \<Rightarrow> ustring \<Rightarrow> (ustring \<times> image_info) list \<Rightarrow> ustring \<Rightarrow> error + bool" where
  "save_to_pdf e markdown_text image_data_dict original_filename =
     (case build_story e markdown_text image_data_dict original_filename of
        Inl err \<Rightarrow> Inl err
      | Inr final_story \<Rightarrow> Inr (build e final_story))"

section \<open>Extraction\<close>

definition MAX_IMAGES :: nat where
  "MAX_IMAGES = 50"

text \<open>\<^verbatim>\<open>str(n)\<close> for a natural number.\<close>

fun str_nat :: "nat \<Rightarrow> ustring" where
  "str_nat n = (if n < 10 then [48 + n] else str_nat (n div 10) @ [48 + n mod 10])"

declare str_nat.simps [simp del]

text \<open>\<^verbatim>\<open>d[k] = v\<close> on a dictionary kept in insertion order.\<close>

fun dict_set :: "('k \<times> 'v) list \<Rightarrow> 'k \<Rightarrow> 'v \<Rightarrow> ('k \<times> 'v) list" where
  "dict_set [] k v = [(k, v)]"
| "dict_set ((k1, v1) # d) k v = (if k1 = k then (k, v) # d else (k1, v1) # dict_set d k v)"

text \<open>\<^verbatim>\<open>sep.join(xs)\<close>\<close>

fun join :: "ustring \<Rightarrow> ustring list \<Rightarrow> ustring" where
  "join sep [] = []"
| "join sep [x] = x"
| "join sep (x # y # ys) = x @ sep @ join sep (y # ys)"

text \<open>
  The body of the loop over the images of a page, on the pair of \<^verbatim>\<open>img_count\<close> and
  \<^verbatim>\<open>image_data\<close>. Every exception inside it is caught, and the image is skipped: the
  extraction raising, the file not written, the captioning call failing. The scratch
  directory is \<^verbatim>\<open>data/temp_images\<close>, joined with the separator \<^verbatim>\<open>/\<close>.
\<close>

definition extract_one ::
  "env \<Rightarrow> document \<Rightarrow> nat \<times> (ustring \<times> image_info) list \<Rightarrow> nat \<Rightarrow>
   nat \<times> (ustring \<times> image_info) list" where
  "extract_one e doc acc xref =
     (case extract_image doc xref of
        None \<Rightarrow> acc
      | Some base \<Rightarrow>
          if length (image base) < 5000 then acc
          else
            (let img_count = fst acc;
                 img_path = ustr ''data/temp_images/'' @ ustr ''img_'' @ str_nat (img_count + 1) @
                            ustr ''.'' @ ext base
             in if \<not> write_file e img_path (image base) then acc
                else
                  (case caption_llm e (img_count + 1) (image base) of
                     None \<Rightarrow> acc
                   | Some content \<Rightarrow>
                       (let lbl = [0x56F3] @ str_nat (img_count + 1)
                        in (img_count + 1,
                            dict_set (snd acc) lbl
                              \<lparr>path = img_path, caption = strip content, label = lbl\<rparr>)))))"

text \<open>The loop over the pages; the cap is tested at the head of each page.\<close>

fun extract_pages ::
  "env \<Rightarrow> document \<Rightarrow> nat \<times> (ustring \<times> image_info) list \<Rightarrow> page list \<Rightarrow>
   nat \<times> (ustring \<times> image_info) list" where
  "extract_pages e doc acc [] = acc"
| "extract_pages e doc acc (p # ps) =
     (if fst acc \<ge> MAX_IMAGES then acc
      else extract_pages e doc (fold (\<lambda>xref a. extract_one e doc a xref) (get_images p) acc) ps)"

text \<open>
  \<^verbatim>\<open>extract_content_from_pdf\<close>: the text of all pages, the list of the captions, and the
  image dictionary.
\<close>

definition extract_content_from_pdf ::
  "env \<Rightarrow> ustring \<Rightarrow> error + (ustring \<times> ustring \<times> (ustring \<times> image_info) list)" where
  "extract_content_from_pdf e pdf_path =
     (case open_pdf e pdf_path of
        None \<Rightarrow> Inl OpenError
      | Some doc \<Rightarrow>
          (let full_text = concat (map get_text (pages doc));
               image_data = snd (extract_pages e doc (0, []) (pages doc));
               img_list_text =
                 join [10] (map (\<lambda>kv. fst kv @ ustr '': '' @ caption (snd kv)) image_data)
           in Inr (full_text, img_list_text, image_data)))"

definition generate_summary :: "env \<Rightarrow> ustring \<Rightarrow> ustring \<Rightarrow> error + ustring" where
  "generate_summary e text_content image_list_text =
     (case summary_llm e text_content image_list_text of
        None \<Rightarrow> Inl LLMError
      | Some content \<Rightarrow> Inr content)"

section \<open>The batch driver\<close>

text \<open>The names of the files in the input directory and in the processed directory.\<close>

record dirs =
  input_dir :: "ustring set"
  processed_dir :: "ustring set"

text \<open>Removing an older file of that name from the processed directory, then the move.\<close>

definition move_to_processed :: "dirs \<Rightarrow> ustring \<Rightarrow> dirs" where
  "move_to_processed fs name =
     fs\<lparr>input_dir := input_dir fs - {name}, processed_dir := insert name (processed_dir fs)\<rparr>"

text \<open>The body of the \<^verbatim>\<open>try\<close> of \<^verbatim>\<open>main\<close> up to the value \<^verbatim>\<open>save_to_pdf\<close> returns.\<close>

definition pipeline :: "env \<Rightarrow> ustring \<Rightarrow> error + bool" where
  "pipeline e name =
     (case extract_content_from_pdf e (ustr ''data/input_PDF/'' @ name) of
        Inl err \<Rightarrow> Inl err
      | Inr (text_content, img_list, img_data) \<Rightarrow>
          (case generate_summary e text_content img_list of
             Inl err \<Rightarrow> Inl err
           | Inr summary \<Rightarrow> save_to_pdf e summary img_data name))"

text \<open>
  One iteration of the loop of \<^verbatim>\<open>main\<close>: the file is moved when \<^verbatim>\<open>save_to_pdf\<close>
  returned \<^verbatim>\<open>True\<close>; an exception is printed and the loop goes on.
\<close>

definition process_file :: "env \<Rightarrow> dirs \<Rightarrow> ustring \<Rightarrow> dirs" where
  "process_file e fs name =
     (case pipeline e name of
        Inr True \<Rightarrow> move_to_processed fs name
      | _ \<Rightarrow> fs)"

definition main :: "env \<Rightarrow> dirs \<Rightarrow> ustring list \<Rightarrow> dirs" where
  "main e fs input_files = fold (\<lambda>name fs1. process_file e fs1 name) input_files fs"

section \<open>Reading a table unit\<close>

text \<open>The cells and the column count of a table, bare or wrapped to stay on one page.\<close>

fun the_table :: "flowable \<Rightarrow> (flowable list list \<times> nat) option" where
  "the_table (Table cells n) = Some (cells, n)"
| "the_table (KeepTogether [Table cells n]) = Some (cells, n)"
| "the_table _ = None"

fun para_text :: "flowable \<Rightarrow> ustring" where
  "para_text (Paragraph t _) = t"
| "para_text _ = []"

section \<open>Example inputs\<close>

text \<open>
  Collaborators that never fail: every paragraph markup is accepted, every image loads
  with 400 by 200 pixels, arithmetic is exact, the build succeeds, files are written and
  both language-model calls answer. No document can be opened.
\<close>

definition demo_env :: env where
  "demo_env =
     \<lparr>markup_ok = (\<lambda>t. True), image_size = (\<lambda>p. Some (400, 200)),
      fround = (\<lambda>x. x), build = (\<lambda>s. True),
      open_pdf = (\<lambda>p. None), write_file = (\<lambda>p b. True),
      caption_llm = (\<lambda>n b. Some (ustr ''fig'')), summary_llm = (\<lambda>t l. Some (ustr ''# T''))\<rparr>"

text \<open>The table buffer of the specification's example, and the table it becomes.\<close>

definition example_buffer :: "ustring list" where
  "example_buffer = [ustr ''| A | B |'', ustr ''|---|---|'', ustr ''| 1 | 2 |'']"

definition example_table :: flowable where
  "example_table =
     KeepTogether
       [Table [[Paragraph (ustr ''A'') TableCellC, Paragraph (ustr ''B'') TableCellC],
               [Paragraph (ustr ''1'') TableCellL, Paragraph (ustr ''2'') TableCellL]] 2]"

text \<open>The layout state before the first line, with an empty story.\<close>

definition state0 :: lstate where
  "state0 = \<lparr>story = [], table_buffer = [], in_table = False\<rparr>"

text \<open>The layout state \<^verbatim>\<open>save_to_pdf\<close> starts from: the title, its rule and a spacer.\<close>

definition title_state :: lstate where
  "title_state =
     \<lparr>story = [Paragraph (title_text (ustr ''r'')) MainTitle, TitleRule, Spacer 10],
      table_buffer = [], in_table = False\<rparr>"

text \<open>The same state after three more paragraphs: six units have been put out.\<close>

definition six_units_state :: lstate where
  "six_units_state =
     \<lparr>story = [Paragraph (title_text (ustr ''r'')) MainTitle, TitleRule, Spacer 10,
               Paragraph (ustr ''a'') WikiBody, Paragraph (ustr ''b'') WikiBody,
               Paragraph (ustr ''c'') WikiBody],
      table_buffer = [], in_table = False\<rparr>"

text \<open>Image dictionaries with one entry.\<close>

definition fig_ab :: "(ustring \<times> image_info) list" where
  "fig_ab = [(ustr ''ab'', \<lparr>path = ustr ''ab.png'', caption = ustr ''cap'', label = ustr ''ab''\<rparr>)]"


text \<open>A table buffer with a header row and 29 data rows.\<close>

definition table_29_data_rows :: "ustring list" where
  "table_29_data_rows = ustr ''| h |'' # replicate 29 (ustr ''| d |'')"


text \<open>
  A source document of one page with 51 embedded images of 5000 bytes each, and
  collaborators that open it.
\<close>

definition fifty_one_images :: document where
  "fifty_one_images =
     \<lparr>pages = [\<lparr>get_text = ustr ''text'', get_images = [1..<52]\<rparr>],
      extract_image = (\<lambda>xref. Some \<lparr>image = replicate 5000 0, ext = ustr ''png''\<rparr>)\<rparr>"

definition one_page_env :: env where
  "one_page_env = demo_env\<lparr>open_pdf := (\<lambda>p. Some fifty_one_images)\<rparr>"

text \<open>
  An embedded image that the loop body accepts whatever the count is: it is extracted, it
  has at least 5000 bytes, its file is written and the captioning call answers.
\<close>

definition acceptable :: "env \<Rightarrow> document \<Rightarrow> nat \<Rightarrow> bool" where
  "acceptable e doc xref =
    (case extract_image doc xref of None \<Rightarrow> False
     | Some b \<Rightarrow> length (image b) \<ge> 5000 \<and> (\<forall>p. write_file e p (image b)) \<and> (\<forall>n. caption_llm e n (image b) \<noteq> None))"

text \<open>The number a string of decimal digits stands for.\<close>

definition digits_value :: "ustring \<Rightarrow> nat" where
  "digits_value s = foldl (\<lambda>a c. 10 * a + (c - 48)) 0 s"

text \<open>
  Collaborators whose layout library rejects the markup \<^verbatim>\<open><b>x\<close>, a bold tag that is
  never closed, and a report with a table cell of that text.
\<close>

definition strict_env :: env where
  "strict_env = demo_env\<lparr>markup_ok := (\<lambda>t. t \<noteq> ustr ''<b>x'')\<rparr>"

definition report_with_bad_table :: ustring where
  "report_with_bad_table = ustr ''intro'' @ [10] @ ustr ''| <b>x |'' @ [10] @ ustr ''after''"

text \<open>
  A source document without pages; collaborators that open it and whose build fails, and
  collaborators that open it and whose build succeeds.
\<close>

definition empty_document :: document where
  "empty_document = \<lparr>pages = [], extract_image = (\<lambda>xref. None)\<rparr>"

definition failing_build_env :: env where
  "failing_build_env = demo_env\<lparr>build := (\<lambda>s. False), open_pdf := (\<lambda>p. Some empty_document)\<rparr>"

definition working_env :: env where
  "working_env = demo_env\<lparr>open_pdf := (\<lambda>p. Some empty_document)\<rparr>"

text \<open>The input directory holding one file, nothing processed yet.\<close>

definition one_input :: dirs where
  "one_input = \<lparr>input_dir = {ustr ''r.pdf''}, processed_dir = {}\<rparr>"

text \<open>The paragraphs of row \<open>i\<close> of a table, when every cell is accepted.\<close>

definition row_paragraphs :: "nat \<Rightarrow> ustring list \<Rightarrow> flowable list" where
  "row_paragraphs i row =
     map (\<lambda>cell. Paragraph (format_inline_bold cell) (if i = 0 then TableCellC else TableCellL)) row"

text \<open>A table buffer whose rows differ in length, and the table it becomes.\<close>

definition ragged_buffer :: "ustring list" where
  "ragged_buffer = [ustr ''| a |'', ustr ''| b | c |'']"

definition ragged_table :: flowable where
  "ragged_table =
     KeepTogether
       [Table [[Paragraph (ustr ''a'') TableCellC, Paragraph [] TableCellC],
               [Paragraph (ustr ''b'') TableCellL, Paragraph (ustr ''c'') TableCellL]] 2]"



section \<open>Facts about strings and comprehensions\<close>

lemmas str_simps = ustr_def strip_def strip_chars_def split_def is_space_def startswith_def

lemmas table_simps = clean_data_def parse_markdown_table_def parse_row_def separator_row_def
  max_cols_def normalized_data_def convert_row_def mk_paragraph_def format_inline_bold_def
  br_match_def bold_match_def create_paragraph_table_def

lemmas layout_simps = layout_line_def end_table_def text_block_def append_paragraph_def
  image_block_def image_group_def display_size_def available_width_def max_h_def label_key_def
  replace_def img_match_def float_ok_def
  final_table_def build_story_def save_to_pdf_def title_text_def path_stem_def

lemma replicate_numeral_unfold:
  "replicate (numeral k) x = x # replicate (pred_numeral k) x"
  by (simp add: numeral_eq_Suc)

lemma map_err_Inr:
  "map_err f xs = Inr ys \<Longrightarrow> list_all2 (\<lambda>x y. f x = Inr y) xs ys"
  by (induction xs arbitrary: ys) (auto split: sum.splits)

lemma mk_paragraph_Inr:
  "mk_paragraph e t s = Inr p \<Longrightarrow> p = Paragraph t s"
  by (auto simp: mk_paragraph_def split: if_splits)

section \<open>Table finalisation\<close>

lemma convert_row_Inr:
  assumes "convert_row e (i, row) = Inr ps"
  shows "length ps = length row" and "map para_text ps = map format_inline_bold row"
proof -
  from assms have a: "list_all2 (\<lambda>c p. mk_paragraph e (format_inline_bold c)
      (if i = 0 then TableCellC else TableCellL) = Inr p) row ps"
    unfolding convert_row_def by (auto dest: map_err_Inr)
  then show "length ps = length row" by (simp add: list_all2_lengthD)
  from a have "list_all2 (\<lambda>c p. para_text p = format_inline_bold c) row ps"
    by (rule list_all2_mono) (auto dest: mk_paragraph_Inr)
  then show "map para_text ps = map format_inline_bold row"
    by (induction rule: list_all2_induct) auto
qed

lemma length_le_max_cols: "row \<in> set rows \<Longrightarrow> length row \<le> max_cols rows"
  unfolding max_cols_def by (intro Max_ge) auto

lemma normalized_row_length:
  "r \<in> set (normalized_data rows) \<Longrightarrow> length r = max_cols rows"
  unfolding normalized_data_def by (auto dest: length_le_max_cols)

lemma table_data_rows:
  assumes "map_err (convert_row e) (enumerate n rows) = Inr cells"
  shows "length cells = length rows"
    and "map (map para_text) cells = map (map format_inline_bold) rows"
    and "\<forall>i < length rows. length (cells ! i) = length (rows ! i)"
proof -
  from assms have a: "list_all2 (\<lambda>ir ps. convert_row e ir = Inr ps) (enumerate n rows) cells"
    by (rule map_err_Inr)
  then show len: "length cells = length rows"
    by (auto dest: list_all2_lengthD)
  have b: "\<forall>i < length rows. convert_row e (n + i, rows ! i) = Inr (cells ! i)"
    using a len by (auto simp: list_all2_conv_all_nth nth_enumerate_eq)
  then show "\<forall>i < length rows. length (cells ! i) = length (rows ! i)"
    by (auto dest: convert_row_Inr(1))
  show "map (map para_text) cells = map (map format_inline_bold) rows"
  proof (rule nth_equalityI)
    show "length (map (map para_text) cells) = length (map (map format_inline_bold) rows)"
      using len by simp
  next
    fix i assume "i < length (map (map para_text) cells)"
    then have i: "i < length rows" using len by simp
    with b have "convert_row e (n + i, rows ! i) = Inr (cells ! i)" by simp
    then have "map para_text (cells ! i) = map format_inline_bold (rows ! i)"
      by (rule convert_row_Inr(2))
    then show "map (map para_text) cells ! i = map (map format_inline_bold) rows ! i"
      using i len by simp
  qed
qed

text \<open>What \<^verbatim>\<open>create_paragraph_table\<close> returns when it returns a table.\<close>

lemma create_paragraph_table_Some:
  assumes "create_paragraph_table e buf = Inr (Some f)"
  obtains cells where
    "map_err (convert_row e) (enumerate 0 (normalized_data (clean_data buf))) = Inr cells"
    "f = (if length (clean_data buf) < 30
          then KeepTogether [Table cells (max_cols (clean_data buf))]
          else Table cells (max_cols (clean_data buf)))"
    "length cells = length (clean_data buf)"
proof -
  from assms obtain cells where
    m: "map_err (convert_row e) (enumerate 0 (normalized_data (clean_data buf))) = Inr cells" and
    f: "f = (if length (clean_data buf) < 30
             then KeepTogether [Table cells (max_cols (clean_data buf))]
             else Table cells (max_cols (clean_data buf)))"
    unfolding create_paragraph_table_def by (auto simp: Let_def split: if_splits sum.splits)
  have "length cells = length (clean_data buf)"
    using table_data_rows(1)[OF m] by (simp add: normalized_data_def)
  with m f show ?thesis by (rule that)
qed

lemma map_err_all:
  "(\<forall>x \<in> set xs. f x = Inr (g x)) \<Longrightarrow> map_err f xs = Inr (map g xs)"
  by (induction xs) auto

lemma convert_row_all:
  assumes "\<forall>cell \<in> set (snd ir). markup_ok e (format_inline_bold cell)"
  shows "convert_row e ir = Inr (row_paragraphs (fst ir) (snd ir))"
  unfolding convert_row_def row_paragraphs_def
  using assms by (intro map_err_all) (simp add: mk_paragraph_def)

lemma create_paragraph_table_emits:
  assumes "clean_data buf \<noteq> []"
    and "\<forall>row \<in> set (normalized_data (clean_data buf)). \<forall>cell \<in> set row.
           markup_ok e (format_inline_bold cell)"
  shows "create_paragraph_table e buf =
     Inr (Some
       (if length (clean_data buf) < 30
        then KeepTogether
               [Table (map (\<lambda>ir. row_paragraphs (fst ir) (snd ir))
                         (enumerate 0 (normalized_data (clean_data buf))))
                  (max_cols (clean_data buf))]
        else Table (map (\<lambda>ir. row_paragraphs (fst ir) (snd ir))
                      (enumerate 0 (normalized_data (clean_data buf))))
               (max_cols (clean_data buf))))"
proof -
  have ne: "buf \<noteq> []"
  proof
    assume "buf = []"
    then have "clean_data buf = []" by (simp add: clean_data_def parse_markdown_table_def)
    with assms(1) show False by simp
  qed
  have "\<forall>ir \<in> set (enumerate 0 (normalized_data (clean_data buf))).
      convert_row e ir = Inr (row_paragraphs (fst ir) (snd ir))"
  proof
    fix ir assume "ir \<in> set (enumerate 0 (normalized_data (clean_data buf)))"
    then have i: "fst ir < length (normalized_data (clean_data buf))"
      and n: "normalized_data (clean_data buf) ! fst ir = snd ir"
      by (simp_all add: in_set_enumerate_eq)
    from i have "normalized_data (clean_data buf) ! fst ir \<in> set (normalized_data (clean_data buf))"
      by (rule nth_mem)
    then have "snd ir \<in> set (normalized_data (clean_data buf))" by (simp only: n)
    with assms(2) have "\<forall>cell \<in> set (snd ir). markup_ok e (format_inline_bold cell)" by blast
    then show "convert_row e ir = Inr (row_paragraphs (fst ir) (snd ir))"
      by (rule convert_row_all)
  qed
  then have "map_err (convert_row e) (enumerate 0 (normalized_data (clean_data buf))) =
      Inr (map (\<lambda>ir. row_paragraphs (fst ir) (snd ir))
             (enumerate 0 (normalized_data (clean_data buf))))"
    by (rule map_err_all)
  with ne assms(1) show ?thesis by (simp add: create_paragraph_table_def)
qed

lemma ragged_rows:
  "normalized_data (clean_data ragged_buffer) = [[ustr ''a'', []], [ustr ''b'', ustr ''c'']]"
  by (simp add: ragged_buffer_def str_simps table_simps)

lemma ragged_buffer_table:
  assumes "\<forall>t. markup_ok e t"
  shows "create_paragraph_table e ragged_buffer = Inr (Some ragged_table)"
  using assms by (simp add: ragged_buffer_def ragged_table_def str_simps table_simps)

lemma example_buffer_table:
  assumes "\<forall>t. markup_ok e t"
  shows "create_paragraph_table e example_buffer = Inr (Some example_table)"
  using assms by (simp add: example_buffer_def example_table_def str_simps table_simps)

text \<open>
  C1. Table finalisation puts out a table for every buffer that keeps a row after the
  separator rows are removed and whose cells the layout library accepts, and the table is
  the one described here. Whenever a table is put out, it has one row per remaining row;
  its column count is the largest number of cells among those rows; every row of the
  table has exactly that many cells; and the cells are the texts of those rows, each row
  extended on the right with empty cells. For the buffer \<^verbatim>\<open>| A | B |\<close>, \<^verbatim>\<open>|---|---|\<close>,
  \<^verbatim>\<open>| 1 | 2 |\<close> the rows are A, B and 1, 2 and the column count is 2; for the buffer
  \<^verbatim>\<open>| a |\<close>, \<^verbatim>\<open>| b | c |\<close> the first row is extended with one empty cell.
\<close>

theorem table_rows_padded_to_column_count:
  "(create_paragraph_table e buf = Inr (Some f) \<longrightarrow>
      (\<exists>cells. the_table f = Some (cells, max_cols (clean_data buf)) \<and>
         length cells = length (clean_data buf) \<and>
         (\<forall>row \<in> set cells. length row = max_cols (clean_data buf)) \<and>
         map (map para_text) cells =
           map (map format_inline_bold)
             (map (\<lambda>row. row @ replicate (max_cols (clean_data buf) - length row) [])
                (clean_data buf)) \<and>
         max_cols (clean_data buf) = Max (length ` set (clean_data buf)))) \<and>
   normalized_data (clean_data example_buffer) =
     [[ustr ''A'', ustr ''B''], [ustr ''1'', ustr ''2'']] \<and>
   max_cols (clean_data example_buffer) = 2 \<and>
   ((\<forall>t. markup_ok e t) \<longrightarrow>
      create_paragraph_table e example_buffer = Inr (Some example_table)) \<and>
   (clean_data buf \<noteq> [] \<and>
    (\<forall>row \<in> set (normalized_data (clean_data buf)). \<forall>cell \<in> set row.
        markup_ok e (format_inline_bold cell)) \<longrightarrow>
      create_paragraph_table e buf =
        Inr (Some
          (if length (clean_data buf) < 30
           then KeepTogether
                  [Table (map (\<lambda>ir. row_paragraphs (fst ir) (snd ir))
                            (enumerate 0 (normalized_data (clean_data buf))))
                     (max_cols (clean_data buf))]
           else Table (map (\<lambda>ir. row_paragraphs (fst ir) (snd ir))
                         (enumerate 0 (normalized_data (clean_data buf))))
                  (max_cols (clean_data buf))))) \<and>
   normalized_data (clean_data ragged_buffer) = [[ustr ''a'', []], [ustr ''b'', ustr ''c'']] \<and>
   ((\<forall>t. markup_ok e t) \<longrightarrow>
      create_paragraph_table e ragged_buffer = Inr (Some ragged_table))"
proof (intro conjI impI)
  assume a: "create_paragraph_table e buf = Inr (Some f)"
  let ?clean = "clean_data buf"
  from a obtain cells where
    m: "map_err (convert_row e) (enumerate 0 (normalized_data ?clean)) = Inr cells" and
    f: "f = (if length ?clean < 30 then KeepTogether [Table cells (max_cols ?clean)]
             else Table cells (max_cols ?clean))" and
    len: "length cells = length ?clean"
    by (rule create_paragraph_table_Some)
  have texts: "map (map para_text) cells = map (map format_inline_bold) (normalized_data ?clean)"
    using table_data_rows(2)[OF m] .
  have "\<forall>i < length (normalized_data ?clean). length (cells ! i) = max_cols ?clean"
    using table_data_rows(3)[OF m] normalized_row_length[of _ ?clean] by simp
  then have rows: "\<forall>row \<in> set cells. length row = max_cols ?clean"
    using len by (auto simp: in_set_conv_nth normalized_data_def)
  have "the_table f = Some (cells, max_cols ?clean)" using f by simp
  then show "\<exists>cells. the_table f = Some (cells, max_cols ?clean) \<and>
         length cells = length ?clean \<and>
         (\<forall>row \<in> set cells. length row = max_cols ?clean) \<and>
         map (map para_text) cells =
           map (map format_inline_bold)
             (map (\<lambda>row. row @ replicate (max_cols ?clean - length row) []) ?clean) \<and>
         max_cols ?clean = Max (length ` set ?clean)"
    using len rows texts by (auto simp: normalized_data_def max_cols_def)
next
  show "normalized_data (clean_data example_buffer) =
     [[ustr ''A'', ustr ''B''], [ustr ''1'', ustr ''2'']]"
    by (simp add: example_buffer_def str_simps table_simps)
next
  show "max_cols (clean_data example_buffer) = 2"
    by (simp add: example_buffer_def str_simps table_simps)
next
  assume "\<forall>t. markup_ok e t"
  then show "create_paragraph_table e example_buffer = Inr (Some example_table)"
    by (rule example_buffer_table)
next
  assume "clean_data buf \<noteq> [] \<and>
    (\<forall>row \<in> set (normalized_data (clean_data buf)). \<forall>cell \<in> set row.
        markup_ok e (format_inline_bold cell))"
  then show "create_paragraph_table e buf =
        Inr (Some
          (if length (clean_data buf) < 30
           then KeepTogether
                  [Table (map (\<lambda>ir. row_paragraphs (fst ir) (snd ir))
                            (enumerate 0 (normalized_data (clean_data buf))))
                     (max_cols (clean_data buf))]
           else Table (map (\<lambda>ir. row_paragraphs (fst ir) (snd ir))
                         (enumerate 0 (normalized_data (clean_data buf))))
                  (max_cols (clean_data buf))))"
    using create_paragraph_table_emits by blast
next
  show "normalized_data (clean_data ragged_buffer) = [[ustr ''a'', []], [ustr ''b'', ustr ''c'']]"
    by (rule ragged_rows)
next
  assume "\<forall>t. markup_ok e t"
  then show "create_paragraph_table e ragged_buffer = Inr (Some ragged_table)"
    by (rule ragged_buffer_table)
qed

theorem table_rows_padded_to_column_count_witness:
  "(\<forall>t. markup_ok demo_env t) \<and>
   clean_data ragged_buffer = [[ustr ''a''], [ustr ''b'', ustr ''c'']] \<and>
   create_paragraph_table demo_env ragged_buffer = Inr (Some ragged_table) \<and>
   (\<exists>cells. the_table ragged_table = Some (cells, 2) \<and> length cells = 2 \<and>
      (\<forall>row \<in> set cells. length row = 2) \<and>
      map (map para_text) cells = [[ustr ''a'', []], [ustr ''b'', ustr ''c'']]) \<and>
   create_paragraph_table demo_env example_buffer = Inr (Some example_table)"
proof -
  have ok: "\<forall>t. markup_ok demo_env t" by (simp add: demo_env_def)
  note t = table_rows_padded_to_column_count [of demo_env ragged_buffer ragged_table]
  have c: "clean_data ragged_buffer = [[ustr ''a''], [ustr ''b'', ustr ''c'']]"
    by (simp add: ragged_buffer_def str_simps table_simps)
  then have ne: "clean_data ragged_buffer \<noteq> []" by simp
  have n: "max_cols (clean_data ragged_buffer) = 2" by (simp add: c max_cols_def)
  from t ok have r: "create_paragraph_table demo_env ragged_buffer = Inr (Some ragged_table)"
    by blast
  from t ok have x: "create_paragraph_table demo_env example_buffer = Inr (Some example_table)"
    by blast
  from t r have "\<exists>cells. the_table ragged_table = Some (cells, max_cols (clean_data ragged_buffer)) \<and>
      length cells = length (clean_data ragged_buffer) \<and>
      (\<forall>row \<in> set cells. length row = max_cols (clean_data ragged_buffer)) \<and>
      map (map para_text) cells =
        map (map format_inline_bold)
          (map (\<lambda>row. row @ replicate (max_cols (clean_data ragged_buffer) - length row) [])
             (clean_data ragged_buffer))"
    by blast
  then have "\<exists>cells. the_table ragged_table = Some (cells, 2) \<and> length cells = 2 \<and>
      (\<forall>row \<in> set cells. length row = 2) \<and>
      map (map para_text) cells = [[ustr ''a'', []], [ustr ''b'', ustr ''c'']]"
    by (simp add: c max_cols_def str_simps format_inline_bold_def br_match_def bold_match_def
        numeral_2_eq_2)
  with ok c r x show ?thesis by blast
qed

text \<open>
  C2, the claim as stated fails. A table with a header row and 29 data rows is put out
  as a bare table, which may split across pages: it is not wrapped to stay together.
\<close>

theorem table_with_29_data_rows_not_kept_together:
  "create_paragraph_table demo_env table_29_data_rows =
     Inr (Some (Table ([Paragraph (ustr ''h'') TableCellC] #
                       replicate 29 [Paragraph (ustr ''d'') TableCellL]) 1)) \<and>
   length (clean_data table_29_data_rows) - 1 = 29"
  by (simp add: table_29_data_rows_def str_simps table_simps demo_env_def
      replicate_numeral_unfold)

text \<open>
  C2, amended. The count that decides includes the header row: a table that is put out is
  wrapped to stay together exactly when it has fewer than 30 rows in all, which is fewer
  than 29 data rows below the header; with 30 rows or more it is put out bare.
\<close>

theorem keep_together_iff_fewer_than_30_rows:
  assumes "create_paragraph_table e buf = Inr (Some f)"
  shows "\<exists>cells n. length cells = length (clean_data buf) \<and>
           f = (if length cells < 30 then KeepTogether [Table cells n] else Table cells n)"
proof -
  from assms obtain cells where
    "f = (if length (clean_data buf) < 30
          then KeepTogether [Table cells (max_cols (clean_data buf))]
          else Table cells (max_cols (clean_data buf)))"
    "length cells = length (clean_data buf)"
    by (rule create_paragraph_table_Some)
  then show ?thesis by auto
qed

theorem keep_together_iff_fewer_than_30_rows_witness:
  "create_paragraph_table demo_env example_buffer = Inr (Some example_table) \<and>
   (\<exists>cells n. length cells = length (clean_data example_buffer) \<and>
      example_table =
        (if length cells < 30 then KeepTogether [Table cells n] else Table cells n))"
proof -
  have "\<forall>t. markup_ok demo_env t" by (simp add: demo_env_def)
  then have h: "create_paragraph_table demo_env example_buffer = Inr (Some example_table)"
    by (rule example_buffer_table)
  from h keep_together_iff_fewer_than_30_rows [OF h] show ?thesis by (rule conjI)
qed

section \<open>Lines and tags\<close>

lemma startswith_Cons_iff: "startswith s (c # p) = (\<exists>t. s = c # t \<and> startswith t p)"
  by (cases s) (auto simp: startswith_def)

lemma startswith_Nil [simp]: "startswith s []"
  by (simp add: startswith_def)

lemma heading1_line:
  assumes "startswith line (ustr ''# '')"
  shows "\<not> startswith line (ustr ''|'')" and "line \<noteq> []" and "img_match line = None"
  using assms by (auto simp: ustr_def startswith_Cons_iff img_match_def)

lemma split_first_Some: "split_first pat s = Some (b, a) \<Longrightarrow> s = b @ pat @ a"
proof (induction s arbitrary: b)
  case Nil
  then show ?case by (simp split: if_splits)
next
  case (Cons c cs)
  show ?case
  proof (cases "startswith (c # cs) pat")
    case True
    with Cons.prems have "b = []" "a = drop (length pat) (c # cs)" by simp_all
    moreover from True have "take (length pat) (c # cs) = pat" by (simp add: startswith_def)
    ultimately show ?thesis by (metis append_Nil append_take_drop_id)
  next
    case False
    with Cons.prems obtain b' where "split_first pat cs = Some (b', a)" "b = c # b'"
      by (auto split: option.splits)
    with Cons.IH show ?thesis by simp
  qed
qed





lemma img_match_SomeD:
  assumes "img_match line = Some g"
  shows "startswith line (ustr ''[[IMG:'')"
    and "\<exists>a. dropWhile is_space (drop 6 line) = g @ ustr '']]'' @ a"
    and "10 \<notin> set g"
proof -
  from assms show sw: "startswith line (ustr ''[[IMG:'')"
    by (simp add: img_match_def split: if_splits)
  with assms obtain b a where
    s: "split_first (ustr '']]'') (dropWhile is_space (drop 6 line)) = Some (b, a)"
    and g: "10 \<notin> set b" "g = b"
    by (simp add: img_match_def split: option.splits prod.splits if_splits)
  from s have "dropWhile is_space (drop 6 line) = b @ ustr '']]'' @ a"
    by (rule split_first_Some)
  with g show "\<exists>a. dropWhile is_space (drop 6 line) = g @ ustr '']]'' @ a" by blast
  from g show "10 \<notin> set g" by simp
qed







lemma img_open_line:
  assumes "startswith line (ustr ''[[IMG:'')"
  shows "\<not> startswith line (ustr ''|'')" and "line \<noteq> []"
  using assms by (auto simp: ustr_def startswith_Cons_iff)

lemma strip_Nil: "strip [] = []"
  by (simp add: strip_def strip_chars_def)

lemma layout_line_blank: "layout_line e d st [] = end_table e st"
  by (cases "end_table e st") (simp_all add: layout_line_def strip_Nil startswith_def ustr_def)

lemma layout_lines_append:
  "layout_lines e d st (xs @ ys) =
     (case layout_lines e d st xs of Inl err \<Rightarrow> Inl err | Inr st1 \<Rightarrow> layout_lines e d st1 ys)"
  by (induction xs arbitrary: st) (auto split: sum.splits)

lemma layout_line_image:
  assumes "img_match (strip raw) = Some g"
  shows "layout_line e d st raw =
     (case end_table e st of Inl err \<Rightarrow> Inl err | Inr st1 \<Rightarrow> Inr (image_block e d g st1))"
proof -
  from assms have "startswith (strip raw) (ustr ''[[IMG:'')" by (rule img_match_SomeD(1))
  then have "\<not> startswith (strip raw) (ustr ''|'')" "strip raw \<noteq> []"
    by (rule img_open_line)+
  with assms show ?thesis
    by (simp add: layout_line_def Let_def split: sum.splits)
qed




lemma layout_line_no_table:
  assumes "img_match (strip raw) = Some g" and "map_of d (label_key g) = None"
    and "\<not> in_table st"
  shows "layout_line e d st raw = Inr st"
  using assms by (simp add: layout_line_image image_block_def end_table_def)

section \<open>Top-level headings\<close>

text \<open>
  C3, the claim as stated fails. The first top-level heading of a report does get a page
  break when enough units come before it: after three paragraphs the story holds six
  units, and the page break is put before the heading's group.
\<close>

theorem first_heading_after_three_paragraphs_breaks_page:
  "build_story demo_env
      (ustr ''a'' @ [10] @ ustr ''b'' @ [10] @ ustr ''c'' @ [10] @ ustr ''# First'')
      [] (ustr ''r.pdf'') =
     Inr [Paragraph (title_text (ustr ''r'')) MainTitle, TitleRule, Spacer 10,
          Paragraph (ustr ''a'') WikiBody, Paragraph (ustr ''b'') WikiBody,
          Paragraph (ustr ''c'') WikiBody, PageBreak,
          KeepTogether [Spacer 5, Paragraph (ustr ''First'') WikiH1, H1Rule, Spacer 3]]"
  by (simp add: demo_env_def layout_simps str_simps table_simps)

text \<open>
  C3, amended. A line that starts with \<^verbatim>\<open># \<close> after trimming is a top-level heading.
  When the lines before it have been laid out and the table pending before it, if any,
  has been put out, the heading adds its group to the story, and a page break goes
  immediately before the group exactly when the story holds more than 5 units at that
  moment, the three units of the title block counted; with 5 units or fewer there is no
  page break. A heading on the first line of the report finds the three title units only
  and gets no page break; being the first top-level heading does not matter otherwise.
  If the layout library rejects the heading's markup, the exception leaves the layout.
\<close>

theorem heading1_page_break_iff_more_than_5_units:
  assumes "startswith (strip raw) (ustr ''# '')"
    and "layout_lines e d st0 pre = Inr st" and "end_table e st = Inr st1"
  shows "layout_line e d st raw =
     (if markup_ok e (strip (replace (ustr ''# '') [] (strip raw))) then
        Inr (st1\<lparr>story := story st1 @ (if 5 < length (story st1) then [PageBreak] else []) @
              [KeepTogether [Spacer 5,
                 Paragraph (strip (replace (ustr ''# '') [] (strip raw))) WikiH1,
                 H1Rule, Spacer 3]]\<rparr>)
      else Inl (MarkupError (strip (replace (ustr ''# '') [] (strip raw))))) \<and>
   layout_lines e d st0 (pre @ [raw]) = layout_line e d st raw \<and>
   layout_line e d \<lparr>story = [t, TitleRule, Spacer 10], table_buffer = [], in_table = False\<rparr> raw =
     (if markup_ok e (strip (replace (ustr ''# '') [] (strip raw))) then
        Inr \<lparr>story = [t, TitleRule, Spacer 10,
                       KeepTogether [Spacer 5,
                         Paragraph (strip (replace (ustr ''# '') [] (strip raw))) WikiH1,
                         H1Rule, Spacer 3]],
             table_buffer = [], in_table = False\<rparr>
      else Inl (MarkupError (strip (replace (ustr ''# '') [] (strip raw)))))"
proof (intro conjI)
  show "layout_line e d st raw =
     (if markup_ok e (strip (replace (ustr ''# '') [] (strip raw))) then
        Inr (st1\<lparr>story := story st1 @ (if 5 < length (story st1) then [PageBreak] else []) @
              [KeepTogether [Spacer 5,
                 Paragraph (strip (replace (ustr ''# '') [] (strip raw))) WikiH1,
                 H1Rule, Spacer 3]]\<rparr>)
      else Inl (MarkupError (strip (replace (ustr ''# '') [] (strip raw)))))"
    using heading1_line[OF assms(1)] assms(1,3)
    by (simp add: layout_line_def Let_def text_block_def mk_paragraph_def)
next
  show "layout_lines e d st0 (pre @ [raw]) = layout_line e d st raw"
    using assms(2) by (simp add: layout_lines_append split: sum.splits)
next
  show "layout_line e d \<lparr>story = [t, TitleRule, Spacer 10], table_buffer = [], in_table = False\<rparr> raw =
     (if markup_ok e (strip (replace (ustr ''# '') [] (strip raw))) then
        Inr \<lparr>story = [t, TitleRule, Spacer 10,
                       KeepTogether [Spacer 5,
                         Paragraph (strip (replace (ustr ''# '') [] (strip raw))) WikiH1,
                         H1Rule, Spacer 3]],
             table_buffer = [], in_table = False\<rparr>
      else Inl (MarkupError (strip (replace (ustr ''# '') [] (strip raw)))))"
    using heading1_line[OF assms(1)] assms(1)
    by (simp add: layout_line_def Let_def text_block_def mk_paragraph_def end_table_def)
qed

theorem heading1_page_break_iff_more_than_5_units_witness:
  "startswith (strip (ustr ''# Title'')) (ustr ''# '') \<and>
   layout_lines demo_env [] title_state [ustr ''a'', ustr ''b'', ustr ''c''] = Inr six_units_state \<and>
   end_table demo_env six_units_state = Inr six_units_state \<and>
   layout_lines demo_env [] title_state [ustr ''a'', ustr ''b'', ustr ''c'', ustr ''# Title''] =
     Inr (six_units_state\<lparr>story := story six_units_state @
            [PageBreak,
             KeepTogether [Spacer 5, Paragraph (ustr ''Title'') WikiH1, H1Rule, Spacer 3]]\<rparr>) \<and>
   layout_line demo_env [] title_state (ustr ''# Title'') =
     Inr (title_state\<lparr>story := story title_state @
            [KeepTogether [Spacer 5, Paragraph (ustr ''Title'') WikiH1, H1Rule, Spacer 3]]\<rparr>)"
proof -
  have h: "startswith (strip (ustr ''# Title'')) (ustr ''# '')"
    by (simp add: str_simps)
  have t: "strip (replace (ustr ''# '') [] (strip (ustr ''# Title''))) = ustr ''Title''"
    by (simp add: replace_def str_simps)
  have ok: "markup_ok demo_env (ustr ''Title'')" by (simp add: demo_env_def)
  have p6: "layout_lines demo_env [] title_state [ustr ''a'', ustr ''b'', ustr ''c''] =
      Inr six_units_state"
    by (simp add: title_state_def six_units_state_def demo_env_def layout_simps str_simps
        format_inline_bold_def br_match_def bold_match_def mk_paragraph_def)
  have p3: "layout_lines demo_env [] title_state [] = Inr title_state" by simp
  have e3: "end_table demo_env title_state = Inr title_state"
    by (simp add: end_table_def title_state_def)
  have e6: "end_table demo_env six_units_state = Inr six_units_state"
    by (simp add: end_table_def six_units_state_def)
  have n3: "\<not> 5 < length (story title_state)" by (simp add: title_state_def)
  have n6: "5 < length (story six_units_state)" by (simp add: six_units_state_def)
  note w3 = heading1_page_break_iff_more_than_5_units [OF h p3 e3]
  note w6 = heading1_page_break_iff_more_than_5_units [OF h p6 e6]
  from w3 have a: "layout_line demo_env [] title_state (ustr ''# Title'') =
     Inr (title_state\<lparr>story := story title_state @
            [KeepTogether [Spacer 5, Paragraph (ustr ''Title'') WikiH1, H1Rule, Spacer 3]]\<rparr>)"
    by (simp only: t ok n3 if_True if_False append_Nil)
  from w6 have b: "layout_line demo_env [] six_units_state (ustr ''# Title'') =
     Inr (six_units_state\<lparr>story := story six_units_state @
            [PageBreak,
             KeepTogether [Spacer 5, Paragraph (ustr ''Title'') WikiH1, H1Rule, Spacer 3]]\<rparr>)"
    by (simp only: t ok n6 if_True if_False append_Cons append_Nil)
  from w6 have "layout_lines demo_env [] title_state ([ustr ''a'', ustr ''b'', ustr ''c''] @ [ustr ''# Title'']) =
      layout_line demo_env [] six_units_state (ustr ''# Title'')"
    by blast
  then have c: "layout_lines demo_env [] title_state [ustr ''a'', ustr ''b'', ustr ''c'', ustr ''# Title''] =
     Inr (six_units_state\<lparr>story := story six_units_state @
            [PageBreak,
             KeepTogether [Spacer 5, Paragraph (ustr ''Title'') WikiH1, H1Rule, Spacer 3]]\<rparr>)"
    by (simp only: b append_Cons append_Nil)
  from h p6 e6 c a show ?thesis by simp
qed

section \<open>Image references\<close>




text \<open>
  C6, the claim as stated fails, in two ways. The key that is looked up is the label
  trimmed and with every space inside it removed as well: the trimmed label \<^verbatim>\<open>a b\<close> has
  no entry in the dictionary, but the line is resolved through the key \<^verbatim>\<open>ab\<close> and an
  image group is put out. And an unresolved reference does not leave the rest of the
  document as it was: like every line that is not a table row it ends the table before
  it, so that the rows around it become two tables, where without the line they are one.
\<close>

theorem label_with_inner_space_resolves:
  "img_match (strip (ustr ''[[IMG: a b]]'')) = Some (ustr ''a b'') \<and>
   map_of fig_ab (strip (ustr ''a b'')) = None \<and>
   layout_line demo_env fig_ab state0 (ustr ''[[IMG: a b]]'') =
     Inr (state0\<lparr>story := [KeepTogether [Spacer 2, PDFImage (ustr ''ab.png'') 400 200, Spacer 1,
        Paragraph ([0x25B2, 32] @ ustr ''cap'') Caption, Spacer 5]]\<rparr>) \<and>
   map_of fig_ab (label_key (ustr ''zz'')) = None \<and>
   build_story demo_env (ustr ''| a |'' @ [10] @ ustr ''[[IMG: zz]]'' @ [10] @ ustr ''| b |'')
      fig_ab (ustr ''r.pdf'') =
     Inr [Paragraph (title_text (ustr ''r'')) MainTitle, TitleRule, Spacer 10,
          Spacer 2, KeepTogether [Table [[Paragraph (ustr ''a'') TableCellC]] 1], Spacer 5,
          KeepTogether [Table [[Paragraph (ustr ''b'') TableCellC]] 1]] \<and>
   build_story demo_env (ustr ''| a |'' @ [10] @ ustr ''| b |'') fig_ab (ustr ''r.pdf'') =
     Inr [Paragraph (title_text (ustr ''r'')) MainTitle, TitleRule, Spacer 10,
          KeepTogether [Table [[Paragraph (ustr ''a'') TableCellC],
                               [Paragraph (ustr ''b'') TableCellL]] 1]]"
  by (simp add: demo_env_def fig_ab_def state0_def layout_simps str_simps table_simps)

text \<open>
  C6, amended. For an image-reference line whose label, trimmed and with all its spaces
  removed, is not a key of the image dictionary, the layout does for this line exactly
  what it does for an empty line: it finishes a pending table and nothing more. The
  reference adds no unit and the lookup raises nothing; when no table is pending the
  layout state is returned as it was, and when a table is pending the outcome of the line
  is the outcome of finishing that table. A report with this line lays out as the report
  with an empty line in its place.
\<close>

theorem unresolved_image_ref_is_skipped:
  assumes "img_match (strip raw) = Some g" and "map_of d (label_key g) = None"
  shows "layout_line e d st raw = end_table e st \<and>
         layout_line e d st raw = layout_line e d st [] \<and>
         layout_lines e d st (pre @ raw # post) = layout_lines e d st (pre @ [] # post) \<and>
         (\<not> in_table st \<longrightarrow> layout_line e d st raw = Inr st)"
proof -
  have 1: "layout_line e d st1 raw = end_table e st1" for st1
    using assms(2) by (simp add: layout_line_image[OF assms(1)] image_block_def split: sum.splits)
  then have 2: "layout_line e d st1 raw = layout_line e d st1 []" for st1
    by (simp add: layout_line_blank)
  have "layout_lines e d st (pre @ raw # post) = layout_lines e d st (pre @ [] # post)"
    by (simp add: layout_lines_append 2 split: sum.splits)
  moreover have "\<not> in_table st \<longrightarrow> layout_line e d st raw = Inr st"
    using layout_line_no_table[OF assms] by blast
  ultimately show ?thesis using 1 2 by simp
qed

theorem unresolved_image_ref_is_skipped_witness:
  "img_match (strip (ustr ''[[IMG: zz]]'')) = Some (ustr ''zz'') \<and>
   map_of fig_ab (label_key (ustr ''zz'')) = None \<and>
   \<not> in_table state0 \<and>
   layout_line demo_env fig_ab state0 (ustr ''[[IMG: zz]]'') = Inr state0 \<and>
   layout_lines demo_env fig_ab state0 [ustr ''x'', ustr ''[[IMG: zz]]'', ustr ''y''] =
     layout_lines demo_env fig_ab state0 [ustr ''x'', [], ustr ''y'']"
proof -
  have h1: "img_match (strip (ustr ''[[IMG: zz]]'')) = Some (ustr ''zz'')"
    by (simp add: img_match_def str_simps)
  have h2: "map_of fig_ab (label_key (ustr ''zz'')) = None"
    by (simp add: label_key_def replace_def fig_ab_def str_simps)
  have h3: "\<not> in_table state0" by (simp add: state0_def)
  note t = unresolved_image_ref_is_skipped
    [OF h1 h2, of demo_env state0 "[ustr ''x'']" "[ustr ''y'']"]
  from t h3 have a: "layout_line demo_env fig_ab state0 (ustr ''[[IMG: zz]]'') = Inr state0"
    by blast
  from t have "layout_lines demo_env fig_ab state0 ([ustr ''x''] @ ustr ''[[IMG: zz]]'' # [ustr ''y'']) =
         layout_lines demo_env fig_ab state0 ([ustr ''x''] @ [] # [ustr ''y''])"
    by blast
  then have b: "layout_lines demo_env fig_ab state0 [ustr ''x'', ustr ''[[IMG: zz]]'', ustr ''y''] =
     layout_lines demo_env fig_ab state0 [ustr ''x'', [], ustr ''y'']"
    by (simp only: append_Cons append_Nil)
  from h1 h2 h3 a b show ?thesis by blast
qed

section \<open>Errors while a table is finished\<close>

lemma table_error_aborts_layout:
  assumes "in_table st" and "create_paragraph_table e (table_buffer st) = Inl err"
    and "\<not> startswith (strip raw) (ustr ''|'')"
  shows "layout_lines e d st (raw # rest) = Inl err"
  using assms by (simp add: layout_line_def Let_def end_table_def)

text \<open>
  C8, evaluated where the code departs from the claim. The report has a table whose cell
  is the markup \<^verbatim>\<open><b>x\<close>, which the layout library rejects. Nothing around the call of
  \<^verbatim>\<open>create_paragraph_table\<close> catches the exception: it leaves \<^verbatim>\<open>save_to_pdf\<close>, no story
  is built and the rest of the report is not laid out.
\<close>

theorem table_markup_error_aborts_build:
  "build_story strict_env report_with_bad_table [] (ustr ''r.pdf'') =
     Inl (MarkupError (ustr ''<b>x'')) \<and>
   save_to_pdf strict_env report_with_bad_table [] (ustr ''r.pdf'') =
     Inl (MarkupError (ustr ''<b>x''))"
  by (simp add: layout_simps str_simps table_simps strict_env_def demo_env_def
      report_with_bad_table_def)

section \<open>The build and the source file\<close>

lemma save_to_pdf_True_iff:
  "(save_to_pdf e md dict name = Inr b) =
     (\<exists>s. build_story e md dict name = Inr s \<and> build e s = b)"
  by (auto simp: save_to_pdf_def split: sum.splits)

text \<open>
  C9. \<^verbatim>\<open>save_to_pdf\<close> returns \<^verbatim>\<open>True\<close> exactly when the story was laid out and
  \<^verbatim>\<open>doc.build\<close> wrote it, and \<^verbatim>\<open>False\<close> exactly when the story was laid out and
  \<^verbatim>\<open>doc.build\<close> failed. When the run of a file ends with \<^verbatim>\<open>False\<close>, the directories
  are as they were: the source stays in the input directory. The directories change only
  when the content was extracted, the report generated, the story laid out and the build
  of that story succeeded; then the source is moved.
\<close>

theorem build_failure_keeps_source:
  "(build_story e summary img_data name = Inr s \<and> \<not> build e s \<longrightarrow>
      save_to_pdf e summary img_data name = Inr False) \<and>
   (pipeline e name = Inr False \<longrightarrow> process_file e fs name = fs) \<and>
   (process_file e fs name \<noteq> fs \<longrightarrow> pipeline e name = Inr True) \<and>
   (pipeline e name = Inr b \<longrightarrow>
      (\<exists>t l dict md. extract_content_from_pdf e (ustr ''data/input_PDF/'' @ name) = Inr (t, l, dict) \<and>
         generate_summary e t l = Inr md \<and> save_to_pdf e md dict name = Inr b)) \<and>
   (save_to_pdf e summary img_data name = Inr b) =
      (\<exists>s1. build_story e summary img_data name = Inr s1 \<and> build e s1 = b) \<and>
   (process_file e fs name \<noteq> fs \<longrightarrow>
      process_file e fs name = move_to_processed fs name \<and>
      (\<exists>t l dict md s1.
         extract_content_from_pdf e (ustr ''data/input_PDF/'' @ name) = Inr (t, l, dict) \<and>
         generate_summary e t l = Inr md \<and>
         build_story e md dict name = Inr s1 \<and> build e s1))"
proof (intro conjI impI)
  assume "build_story e summary img_data name = Inr s \<and> \<not> build e s"
  then show "save_to_pdf e summary img_data name = Inr False"
    by (simp add: save_to_pdf_def)
next
  assume "pipeline e name = Inr False"
  then show "process_file e fs name = fs" by (simp add: process_file_def)
next
  assume "process_file e fs name \<noteq> fs"
  then show "pipeline e name = Inr True"
    by (auto simp: process_file_def split: sum.splits bool.splits)
next
  assume "pipeline e name = Inr b"
  then show "\<exists>t l dict md. extract_content_from_pdf e (ustr ''data/input_PDF/'' @ name) = Inr (t, l, dict) \<and>
         generate_summary e t l = Inr md \<and> save_to_pdf e md dict name = Inr b"
    by (auto simp: pipeline_def split: sum.splits prod.splits)
next
  show "(save_to_pdf e summary img_data name = Inr b) =
      (\<exists>s1. build_story e summary img_data name = Inr s1 \<and> build e s1 = b)"
    by (rule save_to_pdf_True_iff)
next
  assume "process_file e fs name \<noteq> fs"
  then have p: "pipeline e name = Inr True"
    by (auto simp: process_file_def split: sum.splits bool.splits)
  then show "process_file e fs name = move_to_processed fs name"
    by (simp add: process_file_def)
next
  assume "process_file e fs name \<noteq> fs"
  then have p: "pipeline e name = Inr True"
    by (auto simp: process_file_def split: sum.splits bool.splits)
  then obtain t l dict md where
    x: "extract_content_from_pdf e (ustr ''data/input_PDF/'' @ name) = Inr (t, l, dict)"
       "generate_summary e t l = Inr md" "save_to_pdf e md dict name = Inr True"
    by (auto simp: pipeline_def split: sum.splits prod.splits)
  from x(3) obtain s1 where "build_story e md dict name = Inr s1" "build e s1"
    by (auto simp: save_to_pdf_True_iff)
  with x(1,2) show "\<exists>t l dict md s1.
         extract_content_from_pdf e (ustr ''data/input_PDF/'' @ name) = Inr (t, l, dict) \<and>
         generate_summary e t l = Inr md \<and>
         build_story e md dict name = Inr s1 \<and> build e s1"
    by blast
qed

lemma failing_build_run:
  "pipeline failing_build_env (ustr ''r.pdf'') = Inr False"
  by (simp add: pipeline_def extract_content_from_pdf_def generate_summary_def failing_build_env_def
     empty_document_def demo_env_def layout_simps str_simps table_simps)

lemma working_build_run:
  "pipeline working_env (ustr ''r.pdf'') = Inr True"
  by (simp add: pipeline_def extract_content_from_pdf_def generate_summary_def working_env_def
     empty_document_def demo_env_def layout_simps str_simps table_simps)

lemma heading_report_story:
  "build_story failing_build_env (ustr ''# T'') [] (ustr ''r.pdf'') =
    Inr [Paragraph (title_text (ustr ''r'')) MainTitle, TitleRule, Spacer 10,
         KeepTogether [Spacer 5, Paragraph (ustr ''T'') WikiH1, H1Rule, Spacer 3]]"
  by (simp add: failing_build_env_def demo_env_def layout_simps str_simps table_simps)

theorem build_failure_keeps_source_witness:
  "save_to_pdf failing_build_env (ustr ''# T'') [] (ustr ''r.pdf'') = Inr False \<and>
   pipeline failing_build_env (ustr ''r.pdf'') = Inr False \<and>
   process_file failing_build_env one_input (ustr ''r.pdf'') = one_input \<and>
   process_file working_env one_input (ustr ''r.pdf'') \<noteq> one_input \<and>
   pipeline working_env (ustr ''r.pdf'') = Inr True \<and>
   process_file working_env one_input (ustr ''r.pdf'') =
     move_to_processed one_input (ustr ''r.pdf'') \<and>
   (\<exists>t l dict md s1.
      extract_content_from_pdf working_env (ustr ''data/input_PDF/'' @ ustr ''r.pdf'') =
        Inr (t, l, dict) \<and>
      generate_summary working_env t l = Inr md \<and>
      build_story working_env md dict (ustr ''r.pdf'') = Inr s1 \<and> build working_env s1)"
proof -
  let ?s = "[Paragraph (title_text (ustr ''r'')) MainTitle, TitleRule, Spacer 10,
             KeepTogether [Spacer 5, Paragraph (ustr ''T'') WikiH1, H1Rule, Spacer 3]]"
  have nb: "\<not> build failing_build_env ?s" by (simp add: failing_build_env_def)
  have p: "pipeline failing_build_env (ustr ''r.pdf'') = Inr False" by (rule failing_build_run)
  have q: "pipeline working_env (ustr ''r.pdf'') = Inr True" by (rule working_build_run)
  have m: "process_file working_env one_input (ustr ''r.pdf'') \<noteq> one_input"
    by (simp add: process_file_def q move_to_processed_def one_input_def)
  note t1 = build_failure_keeps_source
    [of failing_build_env "ustr ''# T''" "[]" "ustr ''r.pdf''" ?s one_input False]
  note t2 = build_failure_keeps_source
    [of working_env "ustr ''# T''" "[]" "ustr ''r.pdf''" ?s one_input True]
  from t1 heading_report_story nb
  have a: "save_to_pdf failing_build_env (ustr ''# T'') [] (ustr ''r.pdf'') = Inr False"
    by blast
  from t1 p have b: "process_file failing_build_env one_input (ustr ''r.pdf'') = one_input"
    by blast
  from t2 m have c: "pipeline working_env (ustr ''r.pdf'') = Inr True" by blast
  from t2 m have d: "process_file working_env one_input (ustr ''r.pdf'') =
     move_to_processed one_input (ustr ''r.pdf'')" by blast
  from t2 m have e: "\<exists>t l dict md s1.
      extract_content_from_pdf working_env (ustr ''data/input_PDF/'' @ ustr ''r.pdf'') =
        Inr (t, l, dict) \<and>
      generate_summary working_env t l = Inr md \<and>
      build_story working_env md dict (ustr ''r.pdf'') = Inr s1 \<and> build working_env s1"
    by blast
  from a p b m c d e show ?thesis by blast
qed

section \<open>Rows of empty cells\<close>

lemma split_acc_nonempty: "split_acc sep acc s \<noteq> []"
  by (induction s arbitrary: acc) auto

lemma split_acc_pieces:
  "piece \<in> set (split_acc sep acc s) \<Longrightarrow> set piece \<subseteq> set acc \<union> set s"
proof (induction s arbitrary: acc)
  case Nil
  then show ?case by simp
next
  case (Cons c cs)
  show ?case
  proof (cases "c = sep")
    case True
    with Cons.prems have "piece = rev acc \<or> piece \<in> set (split_acc sep [] cs)" by simp
    then show ?thesis using Cons.IH[of "[]"] by auto
  next
    case False
    with Cons.prems have "piece \<in> set (split_acc sep (c # acc) cs)" by simp
    then show ?thesis using Cons.IH[of "c # acc"] by auto
  qed
qed

lemma split_acc_no_sep:
  "piece \<in> set (split_acc sep acc s) \<Longrightarrow> sep \<notin> set acc \<Longrightarrow> sep \<notin> set piece"
proof (induction s arbitrary: acc)
  case Nil
  then show ?case by simp
next
  case (Cons c cs)
  show ?case
  proof (cases "c = sep")
    case True
    with Cons.prems have "piece = rev acc \<or> piece \<in> set (split_acc sep [] cs)" by simp
    then show ?thesis using Cons.IH[of "[]"] Cons.prems(2) by auto
  next
    case False
    with Cons.prems have "piece \<in> set (split_acc sep (c # acc) cs)" by simp
    then show ?thesis using Cons.IH[of "c # acc"] Cons.prems(2) False by auto
  qed
qed

lemma set_strip_chars: "set (strip_chars P s) \<subseteq> set s"
proof
  fix x assume "x \<in> set (strip_chars P s)"
  then have "x \<in> set (dropWhile P (rev (dropWhile P s)))" by (simp add: strip_chars_def)
  then have "x \<in> set (rev (dropWhile P s))" by (rule set_dropWhileD)
  then have "x \<in> set (dropWhile P s)" by simp
  then show "x \<in> set s" by (rule set_dropWhileD)
qed

lemma strip_all_space:
  assumes "\<forall>c \<in> set s. is_space c"
  shows "strip s = []"
proof -
  from assms have d: "dropWhile is_space s = []" by (induction s) auto
  show ?thesis unfolding strip_def strip_chars_def d by simp
qed

lemma parse_row_nonempty: "parse_row line \<noteq> []"
  by (simp add: parse_row_def split_def split_acc_nonempty)

lemma pipes_and_spaces_cells_empty:
  assumes "\<forall>c \<in> set line. c = 124 \<or> is_space c"
  shows "\<forall>cell \<in> set (parse_row line). cell = []"
proof
  fix cell assume "cell \<in> set (parse_row line)"
  then obtain piece where
    p: "piece \<in> set (split_acc 124 [] (strip_chars (\<lambda>c. c = 124) line))" and
    c: "cell = strip piece"
    by (auto simp: parse_row_def split_def)
  from p have "set piece \<subseteq> set (strip_chars (\<lambda>c. c = 124) line)"
    using split_acc_pieces by fastforce
  then have "set piece \<subseteq> set line" using set_strip_chars by fastforce
  moreover from p have "124 \<notin> set piece" by (rule split_acc_no_sep) simp
  ultimately have "\<forall>c \<in> set piece. is_space c"
  proof (intro ballI)
    fix x assume x: "x \<in> set piece"
    assume "set piece \<subseteq> set line" and n: "124 \<notin> set piece"
    with x have "x \<in> set line" by (simp add: subsetD)
    with assms have "x = 124 \<or> is_space x" by simp
    moreover from x n have "x \<noteq> 124" by metis
    ultimately show "is_space x" by simp
  qed
  then show "cell = []" unfolding c by (rule strip_all_space)
qed

lemma empty_cells_separator:
  assumes "\<forall>cell \<in> set (parse_row line). cell = []"
  shows "separator_row (parse_row line)"
proof -
  from assms have c: "concat (parse_row line) = []" by simp
  have "set (concat (parse_row line)) \<subseteq> {45, 58, 32}" unfolding c by simp
  moreover have "length (parse_row line) > 0" using parse_row_nonempty[of line] by simp
  ultimately show ?thesis unfolding separator_row_def by (rule conjI[rotated])
qed

lemma clean_data_drop_line:
  assumes "\<forall>cell \<in> set (parse_row line). cell = []"
  shows "clean_data (pre @ line # post) = clean_data (pre @ post)"
proof -
  have "separator_row (parse_row line)" using assms by (rule empty_cells_separator)
  then show ?thesis by (simp add: clean_data_def parse_markdown_table_def)
qed

text \<open>
  C10. A buffered line whose cells are all empty after trimming is a separator row,
  because the joined text of its cells is empty, and it is dropped wherever it stands in
  the buffer: the remaining rows are those of the buffer without that line. A buffer of
  only such lines leaves no row and \<^verbatim>\<open>create_paragraph_table\<close> returns no table. A line
  made of \<^verbatim>\<open>|\<close> and white space only is such a line.
\<close>

theorem empty_cell_rows_yield_no_table:
  "((\<forall>line \<in> set buf. \<forall>cell \<in> set (parse_row line). cell = []) \<longrightarrow>
      (\<forall>line \<in> set buf. separator_row (parse_row line)) \<and>
      clean_data buf = [] \<and> create_paragraph_table e buf = Inr None) \<and>
   ((\<forall>c \<in> set line. c = 124 \<or> is_space c) \<longrightarrow>
      (\<forall>cell \<in> set (parse_row line). cell = [])) \<and>
   ((\<forall>cell \<in> set (parse_row line). cell = []) \<longrightarrow>
      separator_row (parse_row line) \<and>
      clean_data (pre @ line # post) = clean_data (pre @ post))"
proof (intro conjI impI)
  assume a: "\<forall>line \<in> set buf. \<forall>cell \<in> set (parse_row line). cell = []"
  then show s: "\<forall>line \<in> set buf. separator_row (parse_row line)"
    using empty_cells_separator by blast
  then show c: "clean_data buf = []"
    by (auto simp: clean_data_def parse_markdown_table_def filter_empty_conv)
  then show "create_paragraph_table e buf = Inr None"
    by (simp add: create_paragraph_table_def)
next
  assume "\<forall>c \<in> set line. c = 124 \<or> is_space c"
  then show "\<forall>cell \<in> set (parse_row line). cell = []"
    by (rule pipes_and_spaces_cells_empty)
next
  assume "\<forall>cell \<in> set (parse_row line). cell = []"
  then show "separator_row (parse_row line)" by (rule empty_cells_separator)
next
  assume "\<forall>cell \<in> set (parse_row line). cell = []"
  then show "clean_data (pre @ line # post) = clean_data (pre @ post)"
    by (rule clean_data_drop_line)
qed

theorem empty_cell_rows_yield_no_table_witness:
  "parse_row (ustr ''| | |'') = [[], []] \<and>
   separator_row (parse_row (ustr ''| | |'')) \<and>
   clean_data [ustr ''| | |''] = [] \<and>
   create_paragraph_table demo_env [ustr ''| | |''] = Inr None \<and>
   clean_data [ustr ''| a |'', ustr ''| | |'', ustr ''| b |''] =
     clean_data [ustr ''| a |'', ustr ''| b |''] \<and>
   clean_data [ustr ''| a |'', ustr ''| | |'', ustr ''| b |''] = [[ustr ''a''], [ustr ''b'']]"
proof -
  note t = empty_cell_rows_yield_no_table
    [of "[ustr ''| | |'']" demo_env "ustr ''| | |''" "[ustr ''| a |'']" "[ustr ''| b |'']"]
  have p: "parse_row (ustr ''| | |'') = [[], []]"
    by (simp add: parse_row_def str_simps)
  have h: "\<forall>c \<in> set (ustr ''| | |''). c = 124 \<or> is_space c"
    by (simp add: ustr_def is_space_def)
  with t have e: "\<forall>cell \<in> set (parse_row (ustr ''| | |'')). cell = []" by blast
  then have c: "\<forall>line \<in> set [ustr ''| | |'']. \<forall>cell \<in> set (parse_row line). cell = []"
    by simp
  with t have x: "(\<forall>line \<in> set [ustr ''| | |'']. separator_row (parse_row line)) \<and>
      clean_data [ustr ''| | |''] = [] \<and>
      create_paragraph_table demo_env [ustr ''| | |''] = Inr None"
    by blast
  from t e have "clean_data ([ustr ''| a |''] @ ustr ''| | |'' # [ustr ''| b |'']) =
      clean_data ([ustr ''| a |''] @ [ustr ''| b |''])"
    by blast
  then have y: "clean_data [ustr ''| a |'', ustr ''| | |'', ustr ''| b |''] =
     clean_data [ustr ''| a |'', ustr ''| b |'']"
    by (simp only: append_Cons append_Nil)
  have "clean_data [ustr ''| a |'', ustr ''| b |''] = [[ustr ''a''], [ustr ''b'']]"
    by (simp add: str_simps table_simps)
  with y have z: "clean_data [ustr ''| a |'', ustr ''| | |'', ustr ''| b |''] =
      [[ustr ''a''], [ustr ''b'']]" by simp
  from p x y z show ?thesis by simp
qed

section \<open>The size of an image\<close>
















section \<open>The image cap\<close>

lemma digits_value_str_nat: "digits_value (str_nat n) = n"
proof (induction n rule: str_nat.induct)
  case (1 n)
  show ?case
  proof (cases "n < 10")
    case True
    then show ?thesis by (subst str_nat.simps) (simp add: digits_value_def)
  next
    case False
    with 1 have "digits_value (str_nat (n div 10)) = n div 10" by simp
    with False show ?thesis
      by (subst str_nat.simps) (simp add: digits_value_def)
  qed
qed

lemma str_nat_inj: "str_nat m = str_nat n \<Longrightarrow> m = n"
  by (metis digits_value_str_nat)

lemma dict_set_fresh: "k \<notin> fst ` set d \<Longrightarrow> dict_set d k v = d @ [(k, v)]"
  by (induction d k v rule: dict_set.induct) auto

lemma extract_one_accept:
  assumes "acceptable e doc x" and "map fst d = map (\<lambda>i. 0x56F3 # str_nat i) [1..<Suc n]"
  shows "\<exists>v. extract_one e doc (n, d) x = (Suc n, d @ [(0x56F3 # str_nat (Suc n), v)])"
proof -
  have "0x56F3 # str_nat (Suc n) \<notin> fst ` set d"
  proof
    assume "0x56F3 # str_nat (Suc n) \<in> fst ` set d"
    then have "0x56F3 # str_nat (Suc n) \<in> set (map fst d)" by simp
    then have "0x56F3 # str_nat (Suc n) \<in> set (map (\<lambda>i. 0x56F3 # str_nat i) [1..<Suc n])"
      by (simp only: assms(2))
    then obtain i where "i < Suc n" "str_nat (Suc n) = str_nat i"
      by (auto simp del: upt_Suc)
    then show False using str_nat_inj by fastforce
  qed
  moreover from assms(1) obtain b c where
    "extract_image doc x = Some b" "\<not> length (image b) < 5000"
    "\<And>p. write_file e p (image b)" "caption_llm e (Suc n) (image b) = Some c"
    unfolding acceptable_def by (fastforce split: option.splits)
  ultimately show ?thesis
    by (simp add: extract_one_def Let_def dict_set_fresh)
qed

lemma fold_accept:
  assumes "\<forall>x \<in> set xs. acceptable e doc x"
    and "map fst d = map (\<lambda>i. 0x56F3 # str_nat i) [1..<Suc n]"
  shows "\<exists>d'. fold (\<lambda>xref a. extract_one e doc a xref) xs (n, d) = (n + length xs, d') \<and>
     map fst d' = map (\<lambda>i. 0x56F3 # str_nat i) [1..<Suc (n + length xs)]"
  using assms
proof (induction xs arbitrary: n d)
  case Nil
  then show ?case by simp
next
  case (Cons x xs)
  from Cons.prems obtain v where
    v: "extract_one e doc (n, d) x = (Suc n, d @ [(0x56F3 # str_nat (Suc n), v)])"
    using extract_one_accept by force
  have "map fst (d @ [(0x56F3 # str_nat (Suc n), v)]) = map (\<lambda>i. 0x56F3 # str_nat i) [1..<Suc (Suc n)]"
    using Cons.prems(2) by simp
  with Cons.IH[of "d @ [(0x56F3 # str_nat (Suc n), v)]" "Suc n"] Cons.prems(1)
  show ?case using v by simp
qed

lemma single_page_all_accepted:
  assumes "open_pdf e p = Some doc" and "pages doc = [pg]"
    and "\<forall>x \<in> set (get_images pg). acceptable e doc x"
  shows "\<exists>t l d. extract_content_from_pdf e p = Inr (t, l, d) \<and> length d = length (get_images pg)"
proof -
  from fold_accept[OF assms(3), of "[]" 0] obtain d' where
    "fold (\<lambda>xref a. extract_one e doc a xref) (get_images pg) (0, []) = (length (get_images pg), d')"
    "map fst d' = map (\<lambda>i. 0x56F3 # str_nat i) [1..<Suc (length (get_images pg))]"
    by auto
  moreover from this(2) have "length d' = length (get_images pg)"
    by (metis length_map length_upt diff_Suc_1)
  ultimately show ?thesis using assms(1,2)
    by (simp add: extract_content_from_pdf_def MAX_IMAGES_def Let_def)
qed

text \<open>What does hold of the extraction: small images are never accepted, and a page is
  not scanned once the count has reached the cap.\<close>

lemma accepted_image_size:
  assumes "extract_one e doc acc xref \<noteq> acc"
  shows "\<exists>b. extract_image doc xref = Some b \<and> 5000 \<le> length (image b)"
  using assms by (auto simp: extract_one_def Let_def split: option.splits if_splits)

lemma cap_reached_stops_pages:
  "MAX_IMAGES \<le> fst acc \<Longrightarrow> extract_pages e doc acc ps = acc"
  by (cases ps) simp_all

text \<open>
  C4, evaluated where the code departs from the claim. The cap is tested before each page
  only, not before each image: from a document of one page with 51 images of 5000 bytes
  the extraction returns a dictionary of 51 images, one more than \<^verbatim>\<open>MAX_IMAGES\<close>.
\<close>

theorem single_page_exceeds_image_cap:
  "(case extract_content_from_pdf one_page_env (ustr ''in.pdf'') of
      Inl err \<Rightarrow> 0
    | Inr (t, l, dict) \<Rightarrow> length dict) = 51 \<and>
   MAX_IMAGES = 50"
proof -
  have o: "open_pdf one_page_env (ustr ''in.pdf'') = Some fifty_one_images"
    by (simp add: one_page_env_def)
  have p: "pages fifty_one_images = [\<lparr>get_text = ustr ''text'', get_images = [1..<52]\<rparr>]"
    by (simp add: fifty_one_images_def)
  have a: "\<forall>x \<in> set (get_images \<lparr>get_text = ustr ''text'', get_images = [1..<52]\<rparr>).
      acceptable one_page_env fifty_one_images x"
    by (simp add: acceptable_def one_page_env_def fifty_one_images_def demo_env_def)
  from single_page_all_accepted[OF o p a] obtain t l dict where
    "extract_content_from_pdf one_page_env (ustr ''in.pdf'') = Inr (t, l, dict)"
    "length dict = 51" by auto
  then show ?thesis by (simp add: MAX_IMAGES_def)
qed

end
